theory Spec2Isabelle
  imports Main
begin

section \<open>The buffer manager of \<^verbatim>\<open>src/BufMgr/src/buffer.cpp\<close>\<close>

subsection \<open>Data model\<close>

text \<open>
  \<^verbatim>\<open>FrameId\<close> and \<^verbatim>\<open>PageId\<close> are \<^verbatim>\<open>std::uint32_t\<close> in the source. Frame numbers
  are always reduced modulo the pool size and the counter of pinned pages never exceeds
  it, so no 32-bit wrap-around is reachable and both are modelled as \<open>nat\<close>.
  A \<^verbatim>\<open>File*\<close> is the identity of a file object; the null pointer is \<open>None\<close>.
\<close>

type_synonym PageId = nat
type_synonym FrameId = nat
type_synonym File = nat

record Page =
  page_number :: PageId
  page_data :: nat

text \<open>
  The frame descriptor \<^verbatim>\<open>BufDesc\<close>. Its declaration (\<^verbatim>\<open>buffer.h\<close>) is not part of the
  sources at hand; the fields are the ones \<^verbatim>\<open>buffer.cpp\<close> reads and writes, with
  \<open>pinCnt\<close> a non-negative count; the field \<^verbatim>\<open>file\<close> is named \<open>fileP\<close>.
\<close>

record BufDesc =
  fileP :: "File option"
  pageNo :: PageId
  frameNo :: FrameId
  pinCnt :: nat
  dirty :: bool
  valid :: bool
  refbit :: bool

text \<open>
  Modelled from the spec: \<^verbatim>\<open>BufDesc::Set\<close> (declared in the absent \<^verbatim>\<open>buffer.h\<close>).
  Set file, pageNo, pinCnt = 1, valid = true, dirty = false, refbit = true.
\<close>

definition Set_desc :: "BufDesc \<Rightarrow> File option \<Rightarrow> PageId \<Rightarrow> BufDesc" where
  "Set_desc d filePtr pageNum =
     d\<lparr>fileP := filePtr, pageNo := pageNum, pinCnt := 1,
       dirty := False, valid := True, refbit := True\<rparr>"

text \<open>
  Modelled from the spec: \<^verbatim>\<open>BufDesc::Clear\<close> (declared in the absent \<^verbatim>\<open>buffer.h\<close>).
  Set pinCnt = 0, valid = false, dirty = false, refbit = false and forget the
  (file, pageNo) association: the file becomes absent, the page number the invalid
  number 0.
\<close>

definition Clear_desc :: "BufDesc \<Rightarrow> BufDesc" where
  "Clear_desc d =
     d\<lparr>fileP := None, pageNo := 0, pinCnt := 0,
       dirty := False, valid := False, refbit := False\<rparr>"

text \<open>The error conditions; each exception of the source is a value.\<close>

datatype error =
    BufferExceeded
  | PageNotPinned File PageId FrameId
  | PagePinned File PageId FrameId
  | BadBuffer FrameId bool bool bool
  | HashNotFound File PageId
  | HashAlreadyPresent File PageId FrameId
  | InvalidPage File PageId

text \<open>
  How a call ends: it returns, it throws, or it runs into behaviour that C++ leaves
  undefined (a null \<^verbatim>\<open>File*\<close> dereferenced, an uninitialised or out-of-range frame
  number used as an array index, a remainder by zero).
\<close>

datatype status = Returned | Threw error | Undefined

subsection \<open>The page-identity index\<close>

type_synonym BufHashTbl = "File \<times> PageId \<rightharpoonup> FrameId"

text \<open>
  Modelled from the spec: \<^verbatim>\<open>BufHashTbl::insert\<close> (class absent from the sources).
  Adds the mapping; fails with AlreadyPresent if the key already exists.
\<close>

definition BufHashTbl_insert :: "BufHashTbl \<Rightarrow> File \<Rightarrow> PageId \<Rightarrow> FrameId \<Rightarrow> error + BufHashTbl" where
  "BufHashTbl_insert ht f p fr =
     (case ht (f, p) of
        Some _ \<Rightarrow> Inl (HashAlreadyPresent f p fr)
      | None \<Rightarrow> Inr (ht((f, p) \<mapsto> fr)))"

text \<open>
  Modelled from the spec: \<^verbatim>\<open>BufHashTbl::lookup\<close> (class absent from the sources).
  Returns whether the key is present and, if so, the associated frame.
\<close>

definition BufHashTbl_lookup :: "BufHashTbl \<Rightarrow> File \<Rightarrow> PageId \<Rightarrow> FrameId option" where
  "BufHashTbl_lookup ht f p = ht (f, p)"

text \<open>
  Modelled from the spec: \<^verbatim>\<open>BufHashTbl::remove\<close> (class absent from the sources).
  Deletes the mapping; fails with NotFound if absent.
\<close>

definition BufHashTbl_remove :: "BufHashTbl \<Rightarrow> File \<Rightarrow> PageId \<Rightarrow> error + BufHashTbl" where
  "BufHashTbl_remove ht f p =
     (case ht (f, p) of
        None \<Rightarrow> Inl (HashNotFound f p)
      | Some _ \<Rightarrow> Inr (ht((f, p) := None)))"

subsection \<open>The files and the state\<close>

text \<open>
  A file on disk: the data of each page it holds and the number its next new page
  gets.
\<close>

record FileState =
  contents :: "PageId \<rightharpoonup> nat"
  next_page :: PageId

datatype FileCall =
    Call_readPage File PageId
  | Call_writePage File Page
  | Call_allocatePage File
  | Call_deletePage File PageId

text \<open>
  The members of \<^verbatim>\<open>BufMgr\<close> (the pool size \<^verbatim>\<open>numBufs\<close> is the length of the
  descriptor table), followed by the world the manager acts on: the files, the
  calls made through the \<^verbatim>\<open>File\<close> interface so far, and the messages written to
  \<^verbatim>\<open>std::cerr\<close>.
\<close>

record BufMgr =
  bufDescTable :: "BufDesc list"
  bufPool :: "Page list"
  hashTable :: BufHashTbl
  clockHand :: FrameId
  disk :: "File \<Rightarrow> FileState"
  calls :: "FileCall list"
  cerr :: "error list"

definition numBufs :: "BufMgr \<Rightarrow> nat" where
  "numBufs s = length (bufDescTable s)"

text \<open>
  Modelled from the spec: \<^verbatim>\<open>File::readPage\<close> (class absent from the sources).
  Returns the page's current on-disk contents; may fail with I/O errors (here: the
  page does not exist).
\<close>

definition File_readPage :: "BufMgr \<Rightarrow> File \<Rightarrow> PageId \<Rightarrow> (error + Page) \<times> BufMgr" where
  "File_readPage s f p =
     (let s' = s\<lparr>calls := calls s @ [Call_readPage f p]\<rparr> in
      case contents (disk s f) p of
        None \<Rightarrow> (Inl (InvalidPage f p), s')
      | Some v \<Rightarrow> (Inr \<lparr>page_number = p, page_data = v\<rparr>, s'))"

text \<open>
  Modelled from the spec: \<^verbatim>\<open>File::writePage\<close> (class absent from the sources).
  Writes the in-memory page back, using the page's own number as the identifier.
\<close>

definition File_writePage :: "BufMgr \<Rightarrow> File \<Rightarrow> Page \<Rightarrow> BufMgr" where
  "File_writePage s f pg =
     s\<lparr>disk := (disk s)(f := (disk s f)\<lparr>contents := (contents (disk s f))(page_number pg \<mapsto> page_data pg)\<rparr>),
       calls := calls s @ [Call_writePage f pg]\<rparr>"

text \<open>
  Modelled from the spec: \<^verbatim>\<open>File::allocatePage\<close> (class absent from the sources).
  Reserves a new page slot, returning an initialised page whose number is the new id.
\<close>

definition File_allocatePage :: "BufMgr \<Rightarrow> File \<Rightarrow> Page \<times> BufMgr" where
  "File_allocatePage s f =
     (let n = next_page (disk s f) in
      (\<lparr>page_number = n, page_data = 0\<rparr>,
       s\<lparr>disk := (disk s)(f := (disk s f)\<lparr>contents := (contents (disk s f))(n \<mapsto> 0), next_page := Suc n\<rparr>),
         calls := calls s @ [Call_allocatePage f]\<rparr>))"

text \<open>
  Modelled from the spec: \<^verbatim>\<open>File::deletePage\<close> (class absent from the sources).
  Deallocates the page from the file.
\<close>

definition File_deletePage :: "BufMgr \<Rightarrow> File \<Rightarrow> PageId \<Rightarrow> BufMgr" where
  "File_deletePage s f p =
     s\<lparr>disk := (disk s)(f := (disk s f)\<lparr>contents := (contents (disk s f))(p := None)\<rparr>),
       calls := calls s @ [Call_deletePage f p]\<rparr>"

subsection \<open>Construction\<close>

text \<open>
  Modelled from the spec: the default constructor of \<^verbatim>\<open>BufDesc\<close> (declared in the absent
  \<^verbatim>\<open>buffer.h\<close>). A frame begins invalid, and an invalid frame has pinCnt = 0,
  dirty = false, refbit = false and no file. The frame number is the one
  \<^verbatim>\<open>BufMgr::BufMgr\<close> assigns.
\<close>

definition fresh_desc :: "FrameId \<Rightarrow> BufDesc" where
  "fresh_desc i =
     \<lparr>fileP = None, pageNo = 0, frameNo = i, pinCnt = 0,
      dirty = False, valid = False, refbit = False\<rparr>"

text \<open>
  \<^verbatim>\<open>BufMgr::BufMgr\<close>: every descriptor gets its frame number and is invalid, the pool
  holds default pages, the index is empty, and the clock hand is \<^verbatim>\<open>bufs - 1\<close> in 32-bit
  arithmetic (\<open>2\<^sup>3\<^sup>2 - 1\<close> for no frames).
\<close>

definition BufMgr_new :: "nat \<Rightarrow> (File \<Rightarrow> FileState) \<Rightarrow> BufMgr" where
  "BufMgr_new bufs d =
     \<lparr>bufDescTable = map fresh_desc [0..<bufs],
      bufPool = replicate bufs \<lparr>page_number = 0, page_data = 0\<rparr>,
      hashTable = Map.empty,
      clockHand = (if bufs = 0 then 4294967295 else bufs - 1),
      disk = d, calls = [], cerr = []\<rparr>"

subsection \<open>The clock algorithm\<close>

definition advanceClock :: "BufMgr \<Rightarrow> BufMgr" where
  "advanceClock s = s\<lparr>clockHand := (clockHand s + 1) mod numBufs s\<rparr>"

text \<open>
  The victim branch of \<^verbatim>\<open>allocBuf\<close> (valid, reference bit clear, pin count zero) at the
  descriptor \<open>d\<close> under the clock hand. A dirty page is written to its file and its
  index entry removed; a failure of the removal is printed and the call returns with
  the frame parameter unassigned. A clean page is cleared without touching the index.
\<close>

definition allocBuf_victim :: "BufMgr \<Rightarrow> BufDesc \<Rightarrow> status \<times> FrameId option \<times> BufMgr" where
  "allocBuf_victim s d =
     (if dirty d then
        (case fileP d of
           None \<Rightarrow> (Undefined, None, s)
         | Some f \<Rightarrow>
            (let s1 = File_writePage s f (bufPool s ! clockHand s) in
             case BufHashTbl_remove (hashTable s1) f (pageNo d) of
               Inl e \<Rightarrow> (Returned, None, s1\<lparr>cerr := cerr s1 @ [e]\<rparr>)
             | Inr ht \<Rightarrow>
                 (Returned, Some (frameNo (Clear_desc d)),
                  s1\<lparr>hashTable := ht,
                     bufDescTable := (bufDescTable s1)[clockHand s1 := Clear_desc d]\<rparr>)))
      else
        (Returned, Some (frameNo (Clear_desc d)),
         s\<lparr>bufDescTable := (bufDescTable s)[clockHand s := Clear_desc d]\<rparr>))"

text \<open>What one pass through a loop body does: go round again, or leave the function.\<close>

datatype ('c, 'r) flow = Continue 'c | Leave 'r

text \<open>
  The body of the \<^verbatim>\<open>for (;;)\<close> loop of \<^verbatim>\<open>allocBuf\<close>; the second argument is the local
  counter \<^verbatim>\<open>numPinnedPages\<close>. A result is the status, the frame parameter (\<open>None\<close>
  when it was not assigned) and the state. With no frames the remainder in
  \<^verbatim>\<open>advanceClock\<close> divides by zero.
\<close>

definition allocBuf_body ::
  "BufMgr \<Rightarrow> nat \<Rightarrow> (BufMgr \<times> nat, status \<times> FrameId option \<times> BufMgr) flow" where
  "allocBuf_body s0 numPinnedPages =
     (if numBufs s0 = 0 then Leave (Undefined, None, s0)
      else
        let s = advanceClock s0; d = bufDescTable s ! clockHand s in
        if valid d then
          if \<not> refbit d then
            if pinCnt d = 0 then Leave (allocBuf_victim s d)
            else if pinCnt d > 0 then
              if numPinnedPages + 1 = numBufs s then Leave (Threw BufferExceeded, None, s)
              else Continue (s, numPinnedPages + 1)
            else Continue (s, numPinnedPages)
          else
            Continue (s\<lparr>bufDescTable := (bufDescTable s)[clockHand s := d\<lparr>refbit := False\<rparr>]\<rparr>,
                      numPinnedPages)
        else
          Leave (Returned, Some (frameNo (Set_desc d (fileP d) (pageNo d))),
                 s\<lparr>bufDescTable := (bufDescTable s)[clockHand s := Set_desc d (fileP d) (pageNo d)]\<rparr>))"

text \<open>The loop itself. A sweep that never ends is \<open>None\<close>.\<close>

partial_function (option) allocBuf_loop ::
  "BufMgr \<Rightarrow> nat \<Rightarrow> (status \<times> FrameId option \<times> BufMgr) option" where
  "allocBuf_loop s numPinnedPages =
     (case allocBuf_body s numPinnedPages of
        Leave r \<Rightarrow> Some r
      | Continue (s', n') \<Rightarrow> allocBuf_loop s' n')"

declare allocBuf_loop.simps [code]

definition allocBuf :: "BufMgr \<Rightarrow> (status \<times> FrameId option \<times> BufMgr) option" where
  "allocBuf s = allocBuf_loop s 0"

subsection \<open>The public operations\<close>

text \<open>
  \<^verbatim>\<open>readPage\<close>. The result carries the \<^verbatim>\<open>page\<close> reference parameter as the number of
  the frame it points into, \<open>None\<close> when it was not assigned. A frame number that
  \<^verbatim>\<open>allocBuf\<close> left unassigned, or one outside the pool, is used as an array index:
  undefined behaviour.
\<close>

definition readPage ::
  "BufMgr \<Rightarrow> File option \<Rightarrow> PageId \<Rightarrow> (status \<times> FrameId option \<times> BufMgr) option" where
  "readPage s filePtr pageNum =
     (case filePtr of
        None \<Rightarrow> Some (Returned, None, s)
      | Some f \<Rightarrow>
         (case BufHashTbl_lookup (hashTable s) f pageNum of
            None \<Rightarrow>
              (case allocBuf s of
                 None \<Rightarrow> None
               | Some (st, fr, s1) \<Rightarrow>
                   if st = Threw BufferExceeded then
                     Some (Returned, None, s1\<lparr>cerr := cerr s1 @ [BufferExceeded]\<rparr>)
                   else if st \<noteq> Returned then Some (st, None, s1)
                   else
                     (case fr of
                        None \<Rightarrow> Some (Undefined, None, s1)
                      | Some frameNum \<Rightarrow>
                          if frameNum < numBufs s1 then
                            (case File_readPage s1 f pageNum of
                               (Inl e, s2) \<Rightarrow> Some (Threw e, None, s2)
                             | (Inr pg, s2) \<Rightarrow>
                                 (let s3 = s2\<lparr>bufPool := (bufPool s2)[frameNum := pg]\<rparr> in
                                  case BufHashTbl_insert (hashTable s3) f pageNum frameNum of
                                    Inl e \<Rightarrow> Some (Returned, None, s3\<lparr>cerr := cerr s3 @ [e]\<rparr>)
                                  | Inr ht \<Rightarrow>
                                      Some (Returned, Some frameNum,
                                        s3\<lparr>hashTable := ht,
                                           bufDescTable := (bufDescTable s3)[frameNum :=
                                             Set_desc (bufDescTable s3 ! frameNum) (Some f) pageNum]\<rparr>)))
                          else Some (Undefined, None, s1)))
          | Some frameNum \<Rightarrow>
              if frameNum < numBufs s then
                Some (Returned, Some frameNum,
                  s\<lparr>bufDescTable := (bufDescTable s)[frameNum :=
                       (bufDescTable s ! frameNum)
                         \<lparr>refbit := True, pinCnt := pinCnt (bufDescTable s ! frameNum) + 1\<rparr>]\<rparr>)
              else Some (Undefined, None, s)))"

text \<open>\<^verbatim>\<open>unPinPage\<close>.\<close>

definition unPinPage :: "BufMgr \<Rightarrow> File option \<Rightarrow> PageId \<Rightarrow> bool \<Rightarrow> status \<times> BufMgr" where
  "unPinPage s filePtr pageNum dirtyArg =
     (case filePtr of
        None \<Rightarrow> (Returned, s)
      | Some f \<Rightarrow>
         (case BufHashTbl_lookup (hashTable s) f pageNum of
            None \<Rightarrow> (Returned, s)
          | Some frameNum \<Rightarrow>
              if frameNum < numBufs s then
                (let d = bufDescTable s ! frameNum in
                 if pinCnt d > 0 then
                   (Returned,
                    s\<lparr>bufDescTable := (bufDescTable s)[frameNum :=
                         (if dirtyArg then d\<lparr>pinCnt := pinCnt d - 1, dirty := True\<rparr>
                          else d\<lparr>pinCnt := pinCnt d - 1\<rparr>)]\<rparr>)
                 else if pinCnt d = 0 then (Threw (PageNotPinned f pageNum frameNum), s)
                 else (Returned, s))
              else (Undefined, s)))"

text \<open>
  The body of the loop of \<^verbatim>\<open>flushFile\<close> at frame \<open>i\<close>, and the loop over the frames in
  ascending order.
\<close>

definition flushFile_body :: "File \<Rightarrow> BufMgr \<Rightarrow> nat \<Rightarrow> (BufMgr, status \<times> BufMgr) flow" where
  "flushFile_body f s i =
     (let d = bufDescTable s ! i in
      if fileP d = Some f then
        if valid d then
          if pinCnt d > 0 then Leave (Threw (PagePinned f (pageNo d) (frameNo d)), s)
          else
            (let d1 = (if dirty d then d\<lparr>dirty := False\<rparr> else d);
                 s1 = (if dirty d then
                         (File_writePage s f (bufPool s ! i))
                           \<lparr>bufDescTable := (bufDescTable s)[i := d1]\<rparr>
                       else s) in
             case BufHashTbl_remove (hashTable s1) f (pageNo d1) of
               Inl e \<Rightarrow> Leave (Returned, s1\<lparr>cerr := cerr s1 @ [e]\<rparr>)
             | Inr ht \<Rightarrow>
                 Continue (s1\<lparr>hashTable := ht,
                             bufDescTable := (bufDescTable s1)[i := Clear_desc d1]\<rparr>))
        else Leave (Threw (BadBuffer (frameNo d) (dirty d) (valid d) (refbit d)), s)
      else Continue s)"

fun flushFile_loop :: "File \<Rightarrow> nat list \<Rightarrow> BufMgr \<Rightarrow> status \<times> BufMgr" where
  "flushFile_loop f [] s = (Returned, s)"
| "flushFile_loop f (i # is) s =
     (case flushFile_body f s i of
        Leave r \<Rightarrow> r
      | Continue s' \<Rightarrow> flushFile_loop f is s')"

definition flushFile :: "BufMgr \<Rightarrow> File option \<Rightarrow> status \<times> BufMgr" where
  "flushFile s filePtr =
     (case filePtr of
        None \<Rightarrow> (Returned, s)
      | Some f \<Rightarrow> flushFile_loop f [0..<numBufs s] s)"

text \<open>
  \<^verbatim>\<open>allocPage\<close>. The result carries the two reference parameters \<^verbatim>\<open>pageNo\<close> and
  \<^verbatim>\<open>page\<close>, each \<open>None\<close> when it was not assigned. \<^verbatim>\<open>BufferExceeded\<close> is not caught
  here.
\<close>

definition allocPage ::
  "BufMgr \<Rightarrow> File option \<Rightarrow> (status \<times> PageId option \<times> FrameId option \<times> BufMgr) option" where
  "allocPage s filePtr =
     (case filePtr of
        None \<Rightarrow> Some (Returned, None, None, s)
      | Some f \<Rightarrow>
         (case File_allocatePage s f of
            (new_page, s0) \<Rightarrow>
              (let pageNum = page_number new_page in
               case allocBuf s0 of
                 None \<Rightarrow> None
               | Some (st, fr, s1) \<Rightarrow>
                   if st \<noteq> Returned then Some (st, Some pageNum, None, s1)
                   else
                     (case fr of
                        None \<Rightarrow> Some (Undefined, Some pageNum, None, s1)
                      | Some frameNum \<Rightarrow>
                          if frameNum < numBufs s1 then
                            (let s3 = s1\<lparr>bufPool := (bufPool s1)[frameNum := new_page]\<rparr> in
                             case BufHashTbl_insert (hashTable s3) f pageNum frameNum of
                               Inl e \<Rightarrow> Some (Returned, Some pageNum, None, s3\<lparr>cerr := cerr s3 @ [e]\<rparr>)
                             | Inr ht \<Rightarrow>
                                 Some (Returned, Some pageNum, Some frameNum,
                                   s3\<lparr>hashTable := ht,
                                      bufDescTable := (bufDescTable s3)[frameNum :=
                                        Set_desc (bufDescTable s3 ! frameNum) (Some f) pageNum]\<rparr>))
                          else Some (Undefined, Some pageNum, None, s1)))))"

text \<open>\<^verbatim>\<open>disposePage\<close>.\<close>

definition disposePage :: "BufMgr \<Rightarrow> File option \<Rightarrow> PageId \<Rightarrow> status \<times> BufMgr" where
  "disposePage s filePtr pageNum =
     (case filePtr of
        None \<Rightarrow> (Returned, s)
      | Some f \<Rightarrow>
         (case BufHashTbl_lookup (hashTable s) f pageNum of
            None \<Rightarrow> (Returned, File_deletePage s f pageNum)
          | Some frameNum \<Rightarrow>
              if frameNum < numBufs s then
                (let s1 = s\<lparr>bufDescTable := (bufDescTable s)[frameNum :=
                              Clear_desc (bufDescTable s ! frameNum)]\<rparr> in
                 case BufHashTbl_remove (hashTable s1) f pageNum of
                   Inl e \<Rightarrow> (Returned, s1\<lparr>cerr := cerr s1 @ [e]\<rparr>)
                 | Inr ht \<Rightarrow> (Returned, File_deletePage (s1\<lparr>hashTable := ht\<rparr>) f pageNum))
              else (Undefined, s)))"




subsection \<open>Sequences of public operations\<close>

datatype request =
    ReadPage "File option" PageId
  | UnPinPage "File option" PageId bool
  | AllocPage "File option"
  | DisposePage "File option" PageId
  | FlushFile "File option"

text \<open>One public operation, keeping the status and the state it leaves behind.\<close>

fun perform :: "request \<Rightarrow> BufMgr \<Rightarrow> (status \<times> BufMgr) option" where
  "perform (ReadPage fp p) s = map_option (\<lambda>(st, pg, s'). (st, s')) (readPage s fp p)"
| "perform (UnPinPage fp p b) s = Some (unPinPage s fp p b)"
| "perform (AllocPage fp) s = map_option (\<lambda>(st, pn, pg, s'). (st, s')) (allocPage s fp)"
| "perform (DisposePage fp p) s = Some (disposePage s fp p)"
| "perform (FlushFile fp) s = Some (flushFile s fp)"

text \<open>
  A client that issues the requests one after the other, going on after an exception
  (it catches it) with the state the failed operation left. The result is how each
  request ended, and the final state.
\<close>

fun perform_all :: "request list \<Rightarrow> BufMgr \<Rightarrow> (status list \<times> BufMgr) option" where
  "perform_all [] s = Some ([], s)"
| "perform_all (r # rs) s =
     (case perform r s of
        None \<Rightarrow> None
      | Some (st, s') \<Rightarrow>
          (case perform_all rs s' of
             None \<Rightarrow> None
           | Some (sts, s'') \<Rightarrow> Some (st # sts, s'')))"

text \<open>A disk for the examples: every file holds the pages 1 to 5, all zero.\<close>

definition example_disk :: "File \<Rightarrow> FileState" where
  "example_disk = (\<lambda>f. \<lparr>contents = (\<lambda>p. if 1 \<le> p \<and> p \<le> 5 then Some 0 else None),
                          next_page = 6\<rparr>)"


text \<open>
  A pool of one frame that holds page 1 of file 7, pinned once: the state after
  \<^verbatim>\<open>readPage\<close> of that page in a new manager.
\<close>

definition one_pinned_frame :: BufMgr where
  "one_pinned_frame =
     \<lparr>bufDescTable = [\<lparr>fileP = Some 7, pageNo = 1, frameNo = 0, pinCnt = 1,
                       dirty = False, valid = True, refbit = True\<rparr>],
      bufPool = [\<lparr>page_number = 1, page_data = 0\<rparr>],
      hashTable = [(7, 1) \<mapsto> 0],
      clockHand = 0,
      disk = example_disk, calls = [Call_readPage 7 1], cerr = []\<rparr>"

text \<open>
  The same frame once its page has been modified in memory: the frame is dirty, still
  pinned, and its buffer differs from the page on disk.
\<close>

definition one_dirty_pinned_frame :: BufMgr where
  "one_dirty_pinned_frame =
     \<lparr>bufDescTable = [\<lparr>fileP = Some 7, pageNo = 1, frameNo = 0, pinCnt = 1,
                       dirty = True, valid = True, refbit = True\<rparr>],
      bufPool = [\<lparr>page_number = 1, page_data = 5\<rparr>],
      hashTable = [(7, 1) \<mapsto> 0],
      clockHand = 0,
      disk = example_disk, calls = [Call_readPage 7 1], cerr = []\<rparr>"

subsection \<open>What the spec says of \<^verbatim>\<open>flushFile\<close>\<close>

text \<open>
  Following the spec (4.7), for a frame whose descriptor's file is the argument: the
  flush fails at the frame when the frame is not valid or is pinned.
\<close>

definition flush_blocked :: "File \<Rightarrow> BufDesc \<Rightarrow> bool" where
  "flush_blocked f d = (fileP d = Some f \<and> (\<not> valid d \<or> 0 < pinCnt d))"

text \<open>
  Following the spec (4.7): \<^verbatim>\<open>BadBuffer(frame, dirty, valid, refbit)\<close> for a frame that is
  not valid, \<^verbatim>\<open>PagePinned(file, pageNo, frame)\<close> for a valid one that is pinned.
\<close>

definition flush_error :: "File \<Rightarrow> BufDesc \<Rightarrow> error" where
  "flush_error f d =
     (if \<not> valid d then BadBuffer (frameNo d) (dirty d) (valid d) (refbit d)
      else PagePinned f (pageNo d) (frameNo d))"

text \<open>
  Following the spec (4.7), otherwise: if dirty, write the page back; remove the index
  entry for (file, pageNo); clear the descriptor (which clears the dirty flag).
\<close>

definition flushed :: "File \<Rightarrow> nat \<Rightarrow> BufMgr \<Rightarrow> BufMgr" where
  "flushed f i s =
     (if dirty (bufDescTable s ! i) then File_writePage s f (bufPool s ! i) else s)
       \<lparr>hashTable := (hashTable s)((f, pageNo (bufDescTable s ! i)) := None),
        bufDescTable := (bufDescTable s)[i := Clear_desc (bufDescTable s ! i)]\<rparr>"

text \<open>The frames the scan visits before the first one it fails at, in ascending order.\<close>

definition flush_prefix :: "File \<Rightarrow> BufMgr \<Rightarrow> nat list" where
  "flush_prefix f s = takeWhile (\<lambda>i. \<not> flush_blocked f (bufDescTable s ! i)) [0..<numBufs s]"

text \<open>
  A pool of four frames: a dirty and a clean unpinned page of file 7, between them a
  pinned page of file 8, and last a pinned page of file 7.
\<close>

definition flush_example :: BufMgr where
  "flush_example =
     \<lparr>bufDescTable =
        [\<lparr>fileP = Some 7, pageNo = 1, frameNo = 0, pinCnt = 0, dirty = True, valid = True, refbit = True\<rparr>,
         \<lparr>fileP = Some 8, pageNo = 1, frameNo = 1, pinCnt = 1, dirty = False, valid = True, refbit = True\<rparr>,
         \<lparr>fileP = Some 7, pageNo = 2, frameNo = 2, pinCnt = 0, dirty = False, valid = True, refbit = False\<rparr>,
         \<lparr>fileP = Some 7, pageNo = 3, frameNo = 3, pinCnt = 2, dirty = True, valid = True, refbit = True\<rparr>],
      bufPool = [\<lparr>page_number = 1, page_data = 5\<rparr>, \<lparr>page_number = 1, page_data = 0\<rparr>,
                 \<lparr>page_number = 2, page_data = 0\<rparr>, \<lparr>page_number = 3, page_data = 9\<rparr>],
      hashTable = [(7, 1) \<mapsto> 0, (8, 1) \<mapsto> 1, (7, 2) \<mapsto> 2, (7, 3) \<mapsto> 3],
      clockHand = 3,
      disk = example_disk, calls = [], cerr = []\<rparr>"

subsection \<open>Residence\<close>

text \<open>
  Following the spec (3): a page is resident in the pool when some frame is valid for
  its (file, pageNo).
\<close>

definition resident :: "BufMgr \<Rightarrow> File \<Rightarrow> PageId \<Rightarrow> bool" where
  "resident s f p = list_ex (\<lambda>d. valid d \<and> fileP d = Some f \<and> pageNo d = p) (bufDescTable s)"

subsection \<open>Write-back\<close>


section \<open>Properties\<close>

subsection \<open>The sweep of the clock ends\<close>


lemma numBufs_advanceClock [simp]: "numBufs (advanceClock s) = numBufs s"
  by (simp add: numBufs_def advanceClock_def)

lemma clockHand_advanceClock_less: "0 < numBufs s \<Longrightarrow> clockHand (advanceClock s) < numBufs s"
  by (simp add: advanceClock_def)

lemma bufDescTable_advanceClock [simp]: "bufDescTable (advanceClock s) = bufDescTable s"
  by (simp add: advanceClock_def)

lemma allocBuf_body_Continue_cases:
  assumes "allocBuf_body s n = Continue (s', n')"
  shows "0 < numBufs s \<and>
         ((s' = advanceClock s \<and> n' = n + 1 \<and> n + 1 \<noteq> numBufs s \<and>
           valid (bufDescTable s ! clockHand (advanceClock s)) \<and>
           0 < pinCnt (bufDescTable s ! clockHand (advanceClock s))) \<or>
          (s' = (advanceClock s)\<lparr>bufDescTable := (bufDescTable s)[clockHand (advanceClock s) :=
                   (bufDescTable s ! clockHand (advanceClock s))\<lparr>refbit := False\<rparr>]\<rparr> \<and>
           n' = n \<and>
           valid (bufDescTable s ! clockHand (advanceClock s)) \<and>
           refbit (bufDescTable s ! clockHand (advanceClock s))))"
  using assms by (auto simp: allocBuf_body_def Let_def split: if_splits)




subsection \<open>Reasoning about the sweep\<close>

text \<open>
  What holds of every result of the loop: it holds when the body leaves, and it is
  carried back over each further round.
\<close>

lemma allocBuf_loop_induct [consumes 1, case_names Leave Continue]:
  assumes "allocBuf_loop s n = Some r"
    and "\<And>s n r. allocBuf_body s n = Leave r \<Longrightarrow> P s n r"
    and "\<And>s n s' n' r. allocBuf_body s n = Continue (s', n') \<Longrightarrow> P s' n' r \<Longrightarrow> P s n r"
  shows "P s n r"
proof (rule allocBuf_loop.raw_induct [where P = P, OF _ assms(1)])
  fix f s n r
  assume IH: "\<And>s n r. f s n = Some r \<Longrightarrow> P s n r"
    and eq: "(case allocBuf_body s n of Continue (s', n') \<Rightarrow> f s' n' | Leave r \<Rightarrow> Some r) = Some r"
  show "P s n r"
  proof (cases "allocBuf_body s n")
    case (Leave r')
    with eq assms(2) show ?thesis by simp
  next
    case (Continue c)
    obtain s' n' where c: "c = (s', n')" by (cases c)
    with Continue eq have "f s' n' = Some r" by simp
    then have "P s' n' r" by (rule IH)
    with Continue c show ?thesis by (simp add: assms(3))
  qed
qed

lemma allocBuf_victim_facts:
  assumes "allocBuf_victim s d = (st, fr, s')"
  shows "clockHand s' = clockHand s \<and> st \<noteq> Threw e \<and> length (bufDescTable s') = length (bufDescTable s)"
  using assms
  by (auto simp: allocBuf_victim_def File_writePage_def Let_def BufHashTbl_remove_def
      split: if_splits option.splits sum.splits)

lemma allocBuf_body_Leave_cases:
  assumes "allocBuf_body s n = Leave r"
  shows "(numBufs s = 0 \<and> r = (Undefined, None, s)) \<or>
         (0 < numBufs s \<and> \<not> valid (bufDescTable s ! clockHand (advanceClock s)) \<and>
            r = (Returned,
                 Some (frameNo (bufDescTable s ! clockHand (advanceClock s))),
                 (advanceClock s)\<lparr>bufDescTable := (bufDescTable s)[clockHand (advanceClock s) :=
                    Set_desc (bufDescTable s ! clockHand (advanceClock s))
                      (fileP (bufDescTable s ! clockHand (advanceClock s)))
                      (pageNo (bufDescTable s ! clockHand (advanceClock s)))]\<rparr>)) \<or>
         (0 < numBufs s \<and> valid (bufDescTable s ! clockHand (advanceClock s)) \<and>
            \<not> refbit (bufDescTable s ! clockHand (advanceClock s)) \<and>
            0 < pinCnt (bufDescTable s ! clockHand (advanceClock s)) \<and>
            n + 1 = numBufs s \<and> r = (Threw BufferExceeded, None, advanceClock s)) \<or>
         (0 < numBufs s \<and> valid (bufDescTable s ! clockHand (advanceClock s)) \<and>
            \<not> refbit (bufDescTable s ! clockHand (advanceClock s)) \<and>
            pinCnt (bufDescTable s ! clockHand (advanceClock s)) = 0 \<and>
            r = allocBuf_victim (advanceClock s) (bufDescTable s ! clockHand (advanceClock s)))"
  using assms by (auto simp: allocBuf_body_def Let_def Set_desc_def split: if_splits)


lemma map_update_same:
  "i < length xs \<Longrightarrow> f y = f (xs ! i) \<Longrightarrow> map f (xs[i := y]) = map f xs"
  by (simp add: map_update list_update_same_conv)

lemma allocBuf_loop_Threw:
  assumes "allocBuf_loop s n = Some (Threw e, fr, s')"
  shows "e = BufferExceeded \<and> fr = None \<and> hashTable s' = hashTable s \<and> bufPool s' = bufPool s \<and>
         disk s' = disk s \<and> calls s' = calls s \<and> cerr s' = cerr s \<and>
         map (\<lambda>d. d\<lparr>refbit := False\<rparr>) (bufDescTable s') = map (\<lambda>d. d\<lparr>refbit := False\<rparr>) (bufDescTable s)"
  using assms
proof (induction s n "(Threw e, fr, s')" rule: allocBuf_loop_induct)
  case (Leave s n)
  have "(Threw e, fr, s') \<noteq> allocBuf_victim (advanceClock s) d" for d
    using allocBuf_victim_facts [of "advanceClock s" d "Threw e" fr s' e] by auto
  with allocBuf_body_Leave_cases [OF Leave(1)]
  have "(Threw e, fr, s') = (Threw BufferExceeded, None, advanceClock s)" by auto
  then show ?case by (simp add: advanceClock_def)
next
  case (Continue s n s1 n1)
  let ?h = "clockHand (advanceClock s)"
  from allocBuf_body_Continue_cases [OF Continue(1)]
  have pos: "0 < numBufs s"
    and tab: "bufDescTable s1 = bufDescTable s \<or>
              bufDescTable s1 = (bufDescTable s)[?h := (bufDescTable s ! ?h)\<lparr>refbit := False\<rparr>]"
    and rest: "hashTable s1 = hashTable s" "calls s1 = calls s" "bufPool s1 = bufPool s"
      "disk s1 = disk s" "cerr s1 = cerr s"
    by (auto simp: advanceClock_def)
  have h: "?h < length (bufDescTable s)"
    using clockHand_advanceClock_less [OF pos] by (simp add: numBufs_def)
  from tab h have "map (\<lambda>d. d\<lparr>refbit := False\<rparr>) (bufDescTable s1) = map (\<lambda>d. d\<lparr>refbit := False\<rparr>) (bufDescTable s)"
    by (auto simp: map_update_same)
  with Continue(2) rest show ?case by simp
qed




subsection \<open>Eviction of a clean page\<close>

text \<open>
  Claim C2: whenever \<^verbatim>\<open>allocBuf\<close> evicts a valid victim frame it removes the frame's
  index entry before clearing the descriptor, on the clean path as on the dirty path.
  The code does so on the dirty path only. In a pool of one frame, page 1 of file 7
  is read and unpinned without being modified. The next \<^verbatim>\<open>allocBuf\<close> clears the
  reference bit, comes round to frame 0 again and evicts it: the frame is returned
  invalid, and the index still maps (7, 1) to frame 0.
\<close>

theorem allocBuf_clean_victim_keeps_index_entry:
  "(case perform_all [ReadPage (Some 7) 1, UnPinPage (Some 7) 1 False] (BufMgr_new 1 example_disk) of
      None \<Rightarrow> False
    | Some (sts, s) \<Rightarrow>
        sts = [Returned, Returned] \<and>
        map valid (bufDescTable s) = [True] \<and> map dirty (bufDescTable s) = [False] \<and>
        map pinCnt (bufDescTable s) = [0] \<and> hashTable s (7, 1) = Some 0 \<and>
        (case allocBuf s of
           None \<Rightarrow> False
         | Some (st, fr, s') \<Rightarrow>
             st = Returned \<and> fr = Some 0 \<and> map valid (bufDescTable s') = [False] \<and>
             calls s' = calls s \<and> hashTable s' (7, 1) = Some 0))"
  by code_simp

subsection \<open>The invariants of the data model\<close>

text \<open>
  Claim C1: after every public operation the invariants of the data model hold; in
  particular every index entry refers to a valid frame. With one frame, pages 1 and 2
  of file 7 are each read and unpinned, then the file is flushed. Every call returns
  normally. Reading page 2 evicts the clean page 1 and leaves its index entry (the
  defect of claim C2), and the flush removes the entry of page 2 only: in the end the
  only frame is invalid and the index still maps (7, 1) to it.
\<close>

theorem index_entry_to_invalid_frame_after_flushFile:
  "(case perform_all
           [ReadPage (Some 7) 1, UnPinPage (Some 7) 1 False,
            ReadPage (Some 7) 2, UnPinPage (Some 7) 2 False, FlushFile (Some 7)]
           (BufMgr_new 1 example_disk) of
      None \<Rightarrow> False
    | Some (sts, s) \<Rightarrow>
        sts = [Returned, Returned, Returned, Returned, Returned] \<and>
        numBufs s = 1 \<and> hashTable s (7, 1) = Some 0 \<and> map valid (bufDescTable s) = [False])"
  by code_simp

subsection \<open>When the pool counts as exceeded\<close>

text \<open>
  Claim C4: \<^verbatim>\<open>allocBuf\<close> raises \<^verbatim>\<open>BufferExceeded\<close> only when every frame is pinned, never
  while some frame is unpinned and evictable. The counter \<^verbatim>\<open>numPinnedPages\<close> counts
  visits, not frames. With two frames, the requests below leave frame 0 pinned with
  its reference bit clear, frame 1 unpinned with its reference bit set, and the hand
  on frame 1. The sweep counts frame 0, clears the reference bit of frame 1, counts
  frame 0 a second time and raises \<^verbatim>\<open>BufferExceeded\<close>, although frame 1 is valid,
  unpinned and by now unreferenced.
\<close>

theorem allocBuf_BufferExceeded_with_unpinned_frame:
  "(case perform_all
           [ReadPage (Some 7) 1, ReadPage (Some 7) 2, UnPinPage (Some 7) 2 False,
            ReadPage (Some 7) 3, UnPinPage (Some 7) 3 False]
           (BufMgr_new 2 example_disk) of
      None \<Rightarrow> False
    | Some (sts, s) \<Rightarrow>
        sts = [Returned, Returned, Returned, Returned, Returned] \<and>
        clockHand s = 1 \<and>
        map valid (bufDescTable s) = [True, True] \<and>
        map pinCnt (bufDescTable s) = [1, 0] \<and>
        map refbit (bufDescTable s) = [False, True] \<and>
        (case allocBuf s of
           None \<Rightarrow> False
         | Some (st, fr, s') \<Rightarrow>
             st = Threw BufferExceeded \<and>
             map valid (bufDescTable s') = [True, True] \<and>
             map pinCnt (bufDescTable s') = [1, 0] \<and>
             map refbit (bufDescTable s') = [False, False]))"
  by code_simp

subsection \<open>The sweep lands on an invalid frame\<close>




subsection \<open>\<^verbatim>\<open>BufferExceeded\<close> in \<^verbatim>\<open>readPage\<close> and \<^verbatim>\<open>allocPage\<close>\<close>

text \<open>
  Claim C5, as the code has it: when \<^verbatim>\<open>readPage\<close> misses in the index and \<^verbatim>\<open>allocBuf\<close>
  raises \<^verbatim>\<open>BufferExceeded\<close>, \<^verbatim>\<open>readPage\<close> catches the exception, writes its message to
  \<^verbatim>\<open>std::cerr\<close> and returns normally, the page parameter unassigned.
\<close>

theorem readPage_catches_BufferExceeded:
  assumes "hashTable s (f, p) = None" and "allocBuf s = Some (Threw BufferExceeded, fr, s1)"
  shows "readPage s (Some f) p = Some (Returned, None, s1\<lparr>cerr := cerr s1 @ [BufferExceeded]\<rparr>)"
  using assms by (simp add: readPage_def BufHashTbl_lookup_def)

text \<open>The theorem at a pool whose only frame is pinned.\<close>

theorem readPage_catches_BufferExceeded_witness:
  "hashTable one_pinned_frame (7, 2) = None \<and>
   (\<exists>fr s1. allocBuf one_pinned_frame = Some (Threw BufferExceeded, fr, s1) \<and>
      readPage one_pinned_frame (Some 7) 2 =
        Some (Returned, None, s1\<lparr>cerr := cerr s1 @ [BufferExceeded]\<rparr>))"
proof -
  have miss: "hashTable one_pinned_frame (7, 2) = None"
    by (simp add: one_pinned_frame_def)
  have "case allocBuf one_pinned_frame of None \<Rightarrow> False
        | Some (st, fr, s1) \<Rightarrow> st = Threw BufferExceeded"
    by code_simp
  then obtain fr s1 where a: "allocBuf one_pinned_frame = Some (Threw BufferExceeded, fr, s1)"
    by (auto split: option.splits)
  from readPage_catches_BufferExceeded [OF miss a] miss a show ?thesis by blast
qed

text \<open>
  Claim C5 as stated (the error is reported to the caller of \<^verbatim>\<open>readPage\<close>) fails when the
  only frame is pinned and another page is read: \<^verbatim>\<open>allocBuf\<close> raises \<^verbatim>\<open>BufferExceeded\<close>,
  and \<^verbatim>\<open>readPage\<close> returns normally with the page unassigned and the message on
  \<^verbatim>\<open>std::cerr\<close>.
\<close>

theorem readPage_BufferExceeded_not_reported:
  "(case perform_all [ReadPage (Some 7) 1] (BufMgr_new 1 example_disk) of
      None \<Rightarrow> False
    | Some (sts, s) \<Rightarrow>
        hashTable s (7, 2) = None \<and>
        (case allocBuf s of
           None \<Rightarrow> False
         | Some (st, fr, s1) \<Rightarrow> st = Threw BufferExceeded) \<and>
        (case readPage s (Some 7) 2 of
           None \<Rightarrow> False
         | Some (st, pg, s2) \<Rightarrow> st = Returned \<and> pg = None \<and> cerr s2 = [BufferExceeded]))"
  by code_simp

text \<open>
  Claim C9, as the code has it: \<^verbatim>\<open>allocPage\<close> allocates the page in the file and
  assigns its number to the parameter \<^verbatim>\<open>pageNo\<close> before it calls \<^verbatim>\<open>allocBuf\<close>. When
  \<^verbatim>\<open>allocBuf\<close> raises \<^verbatim>\<open>BufferExceeded\<close> the exception reaches the caller: the new page
  exists in the file, \<^verbatim>\<open>pageNo\<close> holds its number, \<^verbatim>\<open>page\<close> is unassigned, and the index,
  the page buffers and every descriptor field but the reference bits are as before.
\<close>

theorem allocPage_BufferExceeded:
  assumes "allocBuf (snd (File_allocatePage s f)) = Some (Threw BufferExceeded, fr, s1)"
  shows "allocPage s (Some f) =
           Some (Threw BufferExceeded, Some (page_number (fst (File_allocatePage s f))), None, s1) \<and>
         page_number (fst (File_allocatePage s f)) = next_page (disk s f) \<and>
         contents (disk s1 f) (next_page (disk s f)) = Some 0 \<and>
         calls s1 = calls s @ [Call_allocatePage f] \<and>
         hashTable s1 = hashTable s \<and> bufPool s1 = bufPool s \<and> cerr s1 = cerr s \<and>
         map (\<lambda>d. d\<lparr>refbit := False\<rparr>) (bufDescTable s1) = map (\<lambda>d. d\<lparr>refbit := False\<rparr>) (bufDescTable s)"
proof -
  from assms have "allocBuf_loop (snd (File_allocatePage s f)) 0 = Some (Threw BufferExceeded, fr, s1)"
    by (simp add: allocBuf_def)
  from allocBuf_loop_Threw [OF this] assms show ?thesis
    by (simp add: allocPage_def File_allocatePage_def Let_def)
qed

text \<open>The theorem at a pool whose only frame is pinned.\<close>

theorem allocPage_BufferExceeded_witness:
  "\<exists>fr s1. allocBuf (snd (File_allocatePage one_pinned_frame 7)) = Some (Threw BufferExceeded, fr, s1) \<and>
      allocPage one_pinned_frame (Some 7) = Some (Threw BufferExceeded, Some 6, None, s1) \<and>
      contents (disk s1 7) 6 = Some 0 \<and> calls s1 = [Call_readPage 7 1, Call_allocatePage 7]"
proof -
  have "case allocBuf (snd (File_allocatePage one_pinned_frame 7)) of None \<Rightarrow> False
        | Some (st, fr, s1) \<Rightarrow> st = Threw BufferExceeded"
    by code_simp
  then obtain fr s1 where
    a: "allocBuf (snd (File_allocatePage one_pinned_frame 7)) = Some (Threw BufferExceeded, fr, s1)"
    by (auto split: option.splits)
  have np: "next_page (disk one_pinned_frame 7) = 6" "calls one_pinned_frame = [Call_readPage 7 1]"
    by (simp_all add: one_pinned_frame_def example_disk_def)
  from allocPage_BufferExceeded [OF a] a np show ?thesis by auto
qed

text \<open>
  Claim C9 as stated (no state of the pool is updated, \<^verbatim>\<open>pageNo\<close> is left unassigned)
  fails when the only frame is pinned: \<^verbatim>\<open>allocPage\<close> throws \<^verbatim>\<open>BufferExceeded\<close> with
  \<^verbatim>\<open>pageNo\<close> assigned the new page number 6, and the sweep has cleared the reference
  bit of the frame.
\<close>

theorem allocPage_BufferExceeded_pageNo_assigned:
  "(case perform_all [ReadPage (Some 7) 1] (BufMgr_new 1 example_disk) of
      None \<Rightarrow> False
    | Some (sts, s) \<Rightarrow>
        (case allocPage s (Some 7) of
           None \<Rightarrow> False
         | Some (st, pn, pg, s') \<Rightarrow>
             st = Threw BufferExceeded \<and> pn = Some 6 \<and> pg = None \<and>
             map refbit (bufDescTable s) = [True] \<and> map refbit (bufDescTable s') = [False]))"
  by code_simp

subsection \<open>\<^verbatim>\<open>unPinPage\<close>\<close>

text \<open>
  What \<^verbatim>\<open>unPinPage\<close> does for a non-null file, in terms of the index: it fails if and
  only if the index maps the page to a frame of the pool whose pin count is zero, and
  the failure is \<^verbatim>\<open>PageNotPinned\<close> with the state unchanged; when the page is not in
  the index it returns with the state unchanged; when the index maps the page to a
  frame with a positive pin count it returns, the pin count of that frame is one less
  and no other frame changes.
\<close>

lemma unPinPage_by_index:
  "((\<exists>e. fst (unPinPage s (Some f) p b) = Threw e) \<longleftrightarrow>
      (\<exists>fr. hashTable s (f, p) = Some fr \<and> fr < numBufs s \<and> pinCnt (bufDescTable s ! fr) = 0)) \<and>
   (\<forall>fr. hashTable s (f, p) = Some fr \<and> fr < numBufs s \<and> pinCnt (bufDescTable s ! fr) = 0 \<longrightarrow>
      unPinPage s (Some f) p b = (Threw (PageNotPinned f p fr), s)) \<and>
   (hashTable s (f, p) = None \<longrightarrow> unPinPage s (Some f) p b = (Returned, s)) \<and>
   (\<forall>fr. hashTable s (f, p) = Some fr \<and> fr < numBufs s \<and> 0 < pinCnt (bufDescTable s ! fr) \<longrightarrow>
      fst (unPinPage s (Some f) p b) = Returned \<and>
      pinCnt (bufDescTable (snd (unPinPage s (Some f) p b)) ! fr) + 1 = pinCnt (bufDescTable s ! fr) \<and>
      length (bufDescTable (snd (unPinPage s (Some f) p b))) = length (bufDescTable s) \<and>
      (\<forall>j. j \<noteq> fr \<longrightarrow> bufDescTable (snd (unPinPage s (Some f) p b)) ! j = bufDescTable s ! j))"
  by (auto simp: unPinPage_def BufHashTbl_lookup_def Let_def numBufs_def split: option.splits)

text \<open>
  Claim C8: for a non-null file, \<^verbatim>\<open>unPinPage\<close> fails with \<^verbatim>\<open>PageNotPinned\<close> if and only if
  the page is resident and the pin count of its frame is zero, and returns silently
  when the page is not resident. The code goes by the index, and the index keeps the
  entries of clean pages that were evicted (the defect of claim C2). With one frame:
  after pages 1 and 2 have each been read and unpinned and the file flushed, no frame
  is valid, and \<^verbatim>\<open>unPinPage\<close> of page 1 fails with \<^verbatim>\<open>PageNotPinned\<close>. After page 1 has
  been read and unpinned and page 2 read, the frame holds page 2, pinned once; page 1
  is not resident, and \<^verbatim>\<open>unPinPage\<close> of page 1 returns having taken the pin of page 2
  away.
\<close>

theorem unPinPage_of_page_not_resident:
  "(case perform_all
           [ReadPage (Some 7) 1, UnPinPage (Some 7) 1 False,
            ReadPage (Some 7) 2, UnPinPage (Some 7) 2 False, FlushFile (Some 7)]
           (BufMgr_new 1 example_disk) of
      None \<Rightarrow> False
    | Some (sts, s) \<Rightarrow>
        sts = [Returned, Returned, Returned, Returned, Returned] \<and>
        map valid (bufDescTable s) = [False] \<and> \<not> resident s 7 1 \<and>
        fst (unPinPage s (Some 7) 1 False) = Threw (PageNotPinned 7 1 0)) \<and>
   (case perform_all
           [ReadPage (Some 7) 1, UnPinPage (Some 7) 1 False, ReadPage (Some 7) 2]
           (BufMgr_new 1 example_disk) of
      None \<Rightarrow> False
    | Some (sts, s) \<Rightarrow>
        sts = [Returned, Returned, Returned] \<and>
        \<not> resident s 7 1 \<and> resident s 7 2 \<and>
        map pageNo (bufDescTable s) = [2] \<and> map pinCnt (bufDescTable s) = [1] \<and>
        fst (unPinPage s (Some 7) 1 False) = Returned \<and>
        map pageNo (bufDescTable (snd (unPinPage s (Some 7) 1 False))) = [2] \<and>
        map pinCnt (bufDescTable (snd (unPinPage s (Some 7) 1 False))) = [0])"
  by code_simp

subsection \<open>\<^verbatim>\<open>disposePage\<close>\<close>

text \<open>
  Claim C10: for a resident page, whatever its dirty flag and pin count,
  \<^verbatim>\<open>disposePage\<close> clears the descriptor, removes the index entry and then asks the file
  to delete the page. The only call through the \<^verbatim>\<open>File\<close> interface is that
  \<^verbatim>\<open>deletePage\<close>: nothing is written back, and the page buffers are untouched.
\<close>

theorem disposePage_resident:
  assumes "hashTable s (f, p) = Some fr" and "fr < numBufs s"
  shows "disposePage s (Some f) p =
           (Returned,
            s\<lparr>bufDescTable := (bufDescTable s)[fr := Clear_desc (bufDescTable s ! fr)],
              hashTable := (hashTable s)((f, p) := None),
              disk := (disk s)(f := (disk s f)\<lparr>contents := (contents (disk s f))(p := None)\<rparr>),
              calls := calls s @ [Call_deletePage f p]\<rparr>)"
  using assms
  by (simp add: disposePage_def BufHashTbl_lookup_def BufHashTbl_remove_def File_deletePage_def Let_def)

text \<open>The theorem at a frame that is pinned and dirty.\<close>

theorem disposePage_resident_witness:
  "hashTable one_dirty_pinned_frame (7, 1) = Some 0 \<and> 0 < numBufs one_dirty_pinned_frame \<and>
   map dirty (bufDescTable one_dirty_pinned_frame) = [True] \<and>
   map pinCnt (bufDescTable one_dirty_pinned_frame) = [1] \<and>
   fst (disposePage one_dirty_pinned_frame (Some 7) 1) = Returned \<and>
   calls (snd (disposePage one_dirty_pinned_frame (Some 7) 1)) = [Call_readPage 7 1, Call_deletePage 7 1] \<and>
   bufDescTable (snd (disposePage one_dirty_pinned_frame (Some 7) 1)) = [fresh_desc 0] \<and>
   hashTable (snd (disposePage one_dirty_pinned_frame (Some 7) 1)) (7, 1) = None \<and>
   contents (disk (snd (disposePage one_dirty_pinned_frame (Some 7) 1)) 7) 1 = None"
proof -
  have a: "hashTable one_dirty_pinned_frame (7, 1) = Some 0" "0 < numBufs one_dirty_pinned_frame"
    by (simp_all add: one_dirty_pinned_frame_def numBufs_def)
  from disposePage_resident [OF a] a show ?thesis
    by (simp add: one_dirty_pinned_frame_def Clear_desc_def fresh_desc_def)
qed

subsection \<open>\<^verbatim>\<open>flushFile\<close>\<close>

text \<open>One frame of the scan, in the three cases of the spec.\<close>

lemma flushFile_body_other:
  "fileP (bufDescTable s ! i) \<noteq> Some f \<Longrightarrow> flushFile_body f s i = Continue s"
  by (simp add: flushFile_body_def Let_def)

lemma flushFile_body_blocked:
  "flush_blocked f (bufDescTable s ! i) \<Longrightarrow>
   flushFile_body f s i = Leave (Threw (flush_error f (bufDescTable s ! i)), s)"
  by (auto simp: flushFile_body_def flush_blocked_def flush_error_def Let_def)

lemma flushFile_body_flush:
  assumes "fileP (bufDescTable s ! i) = Some f" "\<not> flush_blocked f (bufDescTable s ! i)"
    and "hashTable s (f, pageNo (bufDescTable s ! i)) \<noteq> None"
  shows "flushFile_body f s i = Continue (flushed f i s)"
  using assms
  by (auto simp: flushFile_body_def flush_blocked_def flushed_def Let_def BufHashTbl_remove_def
        File_writePage_def Clear_desc_def split: option.splits)

lemma flushFile_loop_run:
  assumes "distinct is"
    and "\<forall>j\<in>set is. j < length (bufDescTable s) \<and> bufDescTable s ! j = T ! j"
    and "\<forall>j\<in>set is. fileP (T ! j) = Some f \<and> \<not> flush_blocked f (T ! j) \<longrightarrow>
           hashTable s (f, pageNo (T ! j)) \<noteq> None"
    and "\<forall>i\<in>set is. \<forall>j\<in>set is. i \<noteq> j \<and> fileP (T ! i) = Some f \<and> fileP (T ! j) = Some f \<and>
           \<not> flush_blocked f (T ! i) \<and> \<not> flush_blocked f (T ! j) \<longrightarrow> pageNo (T ! i) \<noteq> pageNo (T ! j)"
  shows "fst (flushFile_loop f is s) =
           (case dropWhile (\<lambda>i. \<not> flush_blocked f (T ! i)) is of
              [] \<Rightarrow> Returned
            | k # _ \<Rightarrow> Threw (flush_error f (T ! k))) \<and>
         calls (snd (flushFile_loop f is s)) =
           calls s @ map (\<lambda>i. Call_writePage f (bufPool s ! i))
             (filter (\<lambda>i. fileP (T ! i) = Some f \<and> dirty (T ! i))
                (takeWhile (\<lambda>i. \<not> flush_blocked f (T ! i)) is)) \<and>
         bufPool (snd (flushFile_loop f is s)) = bufPool s \<and>
         length (bufDescTable (snd (flushFile_loop f is s))) = length (bufDescTable s) \<and>
         (\<forall>i\<in>set (takeWhile (\<lambda>i. \<not> flush_blocked f (T ! i)) is). fileP (T ! i) = Some f \<longrightarrow>
            bufDescTable (snd (flushFile_loop f is s)) ! i = Clear_desc (T ! i) \<and>
            hashTable (snd (flushFile_loop f is s)) (f, pageNo (T ! i)) = None) \<and>
         (\<forall>j. j \<notin> set (takeWhile (\<lambda>i. \<not> flush_blocked f (T ! i)) is) \<or> fileP (T ! j) \<noteq> Some f \<longrightarrow>
            bufDescTable (snd (flushFile_loop f is s)) ! j = bufDescTable s ! j) \<and>
         (\<forall>k. hashTable s k = None \<longrightarrow> hashTable (snd (flushFile_loop f is s)) k = None)"
  using assms
proof (induction "is" arbitrary: s)
  case Nil
  then show ?case by simp
next
  case (Cons i "is")
  let ?d = "T ! i"
  from Cons.prems(2) have di: "bufDescTable s ! i = ?d" and ilen: "i < length (bufDescTable s)" by simp_all
  from Cons.prems(1) have inotin: "i \<notin> set is" and dis: "distinct is" by simp_all
  consider (other) "fileP ?d \<noteq> Some f" | (blocked) "flush_blocked f ?d"
    | (flush) "fileP ?d = Some f" "\<not> flush_blocked f ?d"
    by blast
  then show ?case
  proof cases
    case other
    then have nb: "\<not> flush_blocked f ?d" by (simp add: flush_blocked_def)
    from other di have body: "flushFile_body f s i = Continue s" by (simp add: flushFile_body_other)
    from Cons.IH [of s] dis Cons.prems(2,3,4)
    have ih: "fst (flushFile_loop f is s) =
           (case dropWhile (\<lambda>i. \<not> flush_blocked f (T ! i)) is of
              [] \<Rightarrow> Returned
            | k # _ \<Rightarrow> Threw (flush_error f (T ! k))) \<and>
         calls (snd (flushFile_loop f is s)) =
           calls s @ map (\<lambda>i. Call_writePage f (bufPool s ! i))
             (filter (\<lambda>i. fileP (T ! i) = Some f \<and> dirty (T ! i))
                (takeWhile (\<lambda>i. \<not> flush_blocked f (T ! i)) is)) \<and>
         bufPool (snd (flushFile_loop f is s)) = bufPool s \<and>
         length (bufDescTable (snd (flushFile_loop f is s))) = length (bufDescTable s) \<and>
         (\<forall>i\<in>set (takeWhile (\<lambda>i. \<not> flush_blocked f (T ! i)) is). fileP (T ! i) = Some f \<longrightarrow>
            bufDescTable (snd (flushFile_loop f is s)) ! i = Clear_desc (T ! i) \<and>
            hashTable (snd (flushFile_loop f is s)) (f, pageNo (T ! i)) = None) \<and>
         (\<forall>j. j \<notin> set (takeWhile (\<lambda>i. \<not> flush_blocked f (T ! i)) is) \<or> fileP (T ! j) \<noteq> Some f \<longrightarrow>
            bufDescTable (snd (flushFile_loop f is s)) ! j = bufDescTable s ! j) \<and>
         (\<forall>k. hashTable s k = None \<longrightarrow> hashTable (snd (flushFile_loop f is s)) k = None)"
      by simp
    from ih body nb other show ?thesis by auto
  next
    case blocked
    with di have "flushFile_body f s i = Leave (Threw (flush_error f ?d), s)"
      by (simp add: flushFile_body_blocked)
    with blocked show ?thesis by simp
  next
    case flush
    from Cons.prems(3) flush have ent: "hashTable s (f, pageNo ?d) \<noteq> None" by simp
    let ?s1 = "flushed f i s"
    from flush ent di have body: "flushFile_body f s i = Continue ?s1"
      by (simp add: flushFile_body_flush)
    have tab1: "bufDescTable ?s1 = (bufDescTable s)[i := Clear_desc ?d]"
      and ht1: "hashTable ?s1 = (hashTable s)((f, pageNo ?d) := None)"
      and pool1: "bufPool ?s1 = bufPool s"
      and calls1: "calls ?s1 = calls s @ (if dirty ?d then [Call_writePage f (bufPool s ! i)] else [])"
      by (simp_all add: flushed_def di File_writePage_def)
    have p2: "\<forall>j\<in>set is. j < length (bufDescTable ?s1) \<and> bufDescTable ?s1 ! j = T ! j"
    proof
      fix j assume j: "j \<in> set is"
      with inotin have "i \<noteq> j" by auto
      with Cons.prems(2) j show "j < length (bufDescTable ?s1) \<and> bufDescTable ?s1 ! j = T ! j"
        by (simp add: tab1)
    qed
    have p3: "\<forall>j\<in>set is. fileP (T ! j) = Some f \<and> \<not> flush_blocked f (T ! j) \<longrightarrow>
           hashTable ?s1 (f, pageNo (T ! j)) \<noteq> None"
    proof (intro ballI impI)
      fix j assume j: "j \<in> set is" and fj: "fileP (T ! j) = Some f \<and> \<not> flush_blocked f (T ! j)"
      with inotin have "i \<noteq> j" by auto
      with Cons.prems(4) j fj flush have "pageNo ?d \<noteq> pageNo (T ! j)" by simp
      moreover from Cons.prems(3) j fj have "hashTable s (f, pageNo (T ! j)) \<noteq> None" by simp
      ultimately show "hashTable ?s1 (f, pageNo (T ! j)) \<noteq> None" by (simp add: ht1)
    qed
    have p4: "\<forall>i\<in>set is. \<forall>j\<in>set is. i \<noteq> j \<and> fileP (T ! i) = Some f \<and> fileP (T ! j) = Some f \<and>
           \<not> flush_blocked f (T ! i) \<and> \<not> flush_blocked f (T ! j) \<longrightarrow> pageNo (T ! i) \<noteq> pageNo (T ! j)"
      using Cons.prems(4) by simp
    note ih = Cons.IH [OF dis p2 p3 p4]
    let ?r = "flushFile_loop f is ?s1"
    have res: "flushFile_loop f (i # is) s = ?r" using body by simp
    have tw: "takeWhile (\<lambda>i. \<not> flush_blocked f (T ! i)) (i # is) = i # takeWhile (\<lambda>i. \<not> flush_blocked f (T ! i)) is"
      and dw: "dropWhile (\<lambda>i. \<not> flush_blocked f (T ! i)) (i # is) = dropWhile (\<lambda>i. \<not> flush_blocked f (T ! i)) is"
      using flush by simp_all
    have inot: "i \<notin> set (takeWhile (\<lambda>i. \<not> flush_blocked f (T ! i)) is)"
      using inotin set_takeWhileD by fastforce
    from ih inot have ti: "bufDescTable (snd ?r) ! i = bufDescTable ?s1 ! i" by blast
    have c1: "fst ?r =
           (case dropWhile (\<lambda>i. \<not> flush_blocked f (T ! i)) (i # is) of
              [] \<Rightarrow> Returned
            | k # _ \<Rightarrow> Threw (flush_error f (T ! k)))"
      using ih dw by simp
    have c2: "calls (snd ?r) =
           calls s @ map (\<lambda>i. Call_writePage f (bufPool s ! i))
             (filter (\<lambda>i. fileP (T ! i) = Some f \<and> dirty (T ! i))
                (takeWhile (\<lambda>i. \<not> flush_blocked f (T ! i)) (i # is)))"
      using ih tw flush(1) by (simp add: calls1 pool1)
    have c3: "bufPool (snd ?r) = bufPool s" using ih pool1 by simp
    have c4: "length (bufDescTable (snd ?r)) = length (bufDescTable s)" using ih tab1 by simp
    have c5: "\<forall>j\<in>set (takeWhile (\<lambda>i. \<not> flush_blocked f (T ! i)) (i # is)). fileP (T ! j) = Some f \<longrightarrow>
            bufDescTable (snd ?r) ! j = Clear_desc (T ! j) \<and>
            hashTable (snd ?r) (f, pageNo (T ! j)) = None"
    proof (intro ballI impI)
      fix j assume "j \<in> set (takeWhile (\<lambda>i. \<not> flush_blocked f (T ! i)) (i # is))" and fj: "fileP (T ! j) = Some f"
      then have "j = i \<or> j \<in> set (takeWhile (\<lambda>i. \<not> flush_blocked f (T ! i)) is)" by (simp add: tw)
      then show "bufDescTable (snd ?r) ! j = Clear_desc (T ! j) \<and>
            hashTable (snd ?r) (f, pageNo (T ! j)) = None"
      proof
        assume "j = i"
        moreover have "hashTable ?s1 (f, pageNo ?d) = None" by (simp add: ht1)
        with ih have "hashTable (snd ?r) (f, pageNo ?d) = None" by blast
        ultimately show ?thesis using ti ilen by (simp add: tab1)
      next
        assume "j \<in> set (takeWhile (\<lambda>i. \<not> flush_blocked f (T ! i)) is)"
        with ih fj show ?thesis by blast
      qed
    qed
    have c6: "\<forall>j. j \<notin> set (takeWhile (\<lambda>i. \<not> flush_blocked f (T ! i)) (i # is)) \<or> fileP (T ! j) \<noteq> Some f \<longrightarrow>
            bufDescTable (snd ?r) ! j = bufDescTable s ! j"
    proof (intro allI impI)
      fix j assume a: "j \<notin> set (takeWhile (\<lambda>i. \<not> flush_blocked f (T ! i)) (i # is)) \<or> fileP (T ! j) \<noteq> Some f"
      with flush have ne: "j \<noteq> i" by (auto simp: tw)
      from a flush(2) have "j \<notin> set (takeWhile (\<lambda>i. \<not> flush_blocked f (T ! i)) is) \<or> fileP (T ! j) \<noteq> Some f"
        by auto
      with ih have "bufDescTable (snd ?r) ! j = bufDescTable ?s1 ! j" by blast
      with ne show "bufDescTable (snd ?r) ! j = bufDescTable s ! j" by (simp add: tab1)
    qed
    have c7: "\<forall>k. hashTable s k = None \<longrightarrow> hashTable (snd ?r) k = None"
    proof (intro allI impI)
      fix k assume "hashTable s k = None"
      then have "hashTable ?s1 k = None" by (simp add: ht1)
      with ih show "hashTable (snd ?r) k = None" by blast
    qed
    from c1 c2 c3 c4 c5 c6 c7 show ?thesis unfolding res by blast
  qed
qed


lemma find_case_dropWhile:
  "(case find P xs of None \<Rightarrow> a | Some k \<Rightarrow> g k) =
   (case dropWhile (\<lambda>x. \<not> P x) xs of [] \<Rightarrow> a | k # _ \<Rightarrow> g k)"
  by (induction xs) simp_all

text \<open>
  Claim C6: for each frame whose descriptor's file equals the argument, \<^verbatim>\<open>flushFile\<close>
  fails with \<^verbatim>\<open>BadBuffer\<close> if the frame is not valid, with \<^verbatim>\<open>PagePinned\<close> if it is valid
  and pinned, and otherwise writes the page back if dirty, removes the index entry and
  clears the descriptor. For the whole scan: the call fails at the first frame of the
  file that is invalid or pinned, with the error of that frame, and returns if there
  is none; the frames of the file before that one are cleared, their index entries
  removed and the dirty ones among them written back, in ascending order, and nothing
  else is written; every other frame is as before. The index is assumed to be free of
  faults: it holds an entry for every valid unpinned frame of the file, and no two
  such frames hold the same page.
\<close>

theorem flushFile_each_frame:
  assumes "\<forall>i<numBufs s. fileP (bufDescTable s ! i) = Some f \<and> valid (bufDescTable s ! i) \<and>
             pinCnt (bufDescTable s ! i) = 0 \<longrightarrow>
             hashTable s (f, pageNo (bufDescTable s ! i)) \<noteq> None"
    and "\<forall>i<numBufs s. \<forall>j<numBufs s. i \<noteq> j \<and>
             fileP (bufDescTable s ! i) = Some f \<and> valid (bufDescTable s ! i) \<and> pinCnt (bufDescTable s ! i) = 0 \<and>
             fileP (bufDescTable s ! j) = Some f \<and> valid (bufDescTable s ! j) \<and> pinCnt (bufDescTable s ! j) = 0 \<longrightarrow>
             pageNo (bufDescTable s ! i) \<noteq> pageNo (bufDescTable s ! j)"
  shows "fst (flushFile s (Some f)) =
           (case find (\<lambda>i. flush_blocked f (bufDescTable s ! i)) [0..<numBufs s] of
              None \<Rightarrow> Returned
            | Some k \<Rightarrow> Threw (flush_error f (bufDescTable s ! k))) \<and>
         calls (snd (flushFile s (Some f))) =
           calls s @ map (\<lambda>i. Call_writePage f (bufPool s ! i))
             (filter (\<lambda>i. fileP (bufDescTable s ! i) = Some f \<and> dirty (bufDescTable s ! i))
                (flush_prefix f s)) \<and>
         bufPool (snd (flushFile s (Some f))) = bufPool s \<and>
         (\<forall>i\<in>set (flush_prefix f s). fileP (bufDescTable s ! i) = Some f \<longrightarrow>
            bufDescTable (snd (flushFile s (Some f))) ! i = Clear_desc (bufDescTable s ! i) \<and>
            hashTable (snd (flushFile s (Some f))) (f, pageNo (bufDescTable s ! i)) = None) \<and>
         (\<forall>j. j \<notin> set (flush_prefix f s) \<or> fileP (bufDescTable s ! j) \<noteq> Some f \<longrightarrow>
            bufDescTable (snd (flushFile s (Some f))) ! j = bufDescTable s ! j)"
proof -
  let ?T = "bufDescTable s"
  have d: "distinct [0..<numBufs s]" by simp
  have p2: "\<forall>j\<in>set [0..<numBufs s]. j < length (bufDescTable s) \<and> bufDescTable s ! j = ?T ! j"
    by (simp add: numBufs_def)
  have p3: "\<forall>j\<in>set [0..<numBufs s]. fileP (?T ! j) = Some f \<and> \<not> flush_blocked f (?T ! j) \<longrightarrow>
           hashTable s (f, pageNo (?T ! j)) \<noteq> None"
    using assms(1) by (auto simp: flush_blocked_def)
  have p4: "\<forall>i\<in>set [0..<numBufs s]. \<forall>j\<in>set [0..<numBufs s]. i \<noteq> j \<and> fileP (?T ! i) = Some f \<and> fileP (?T ! j) = Some f \<and>
           \<not> flush_blocked f (?T ! i) \<and> \<not> flush_blocked f (?T ! j) \<longrightarrow> pageNo (?T ! i) \<noteq> pageNo (?T ! j)"
    using assms(2) by (auto simp: flush_blocked_def)
  have fd: "(case find (\<lambda>i. flush_blocked f (?T ! i)) [0..<numBufs s] of
              None \<Rightarrow> Returned
            | Some k \<Rightarrow> Threw (flush_error f (?T ! k))) =
          (case dropWhile (\<lambda>i. \<not> flush_blocked f (?T ! i)) [0..<numBufs s] of
              [] \<Rightarrow> Returned
            | k # _ \<Rightarrow> Threw (flush_error f (?T ! k)))"
    by (rule find_case_dropWhile)
  from flushFile_loop_run [OF d p2 p3 p4] show ?thesis
    unfolding fd flush_prefix_def flushFile_def by simp
qed

text \<open>
  The theorem at the pool of four frames: frames 0 and 2 are flushed, the dirty
  frame 0 written back, frame 1 of the other file is passed over, and the scan fails
  at the pinned frame 3.
\<close>

theorem flushFile_each_frame_witness:
  "fst (flushFile flush_example (Some 7)) = Threw (PagePinned 7 3 3) \<and>
   calls (snd (flushFile flush_example (Some 7))) = [Call_writePage 7 \<lparr>page_number = 1, page_data = 5\<rparr>] \<and>
   flush_prefix 7 flush_example = [0, 1, 2] \<and>
   bufDescTable (snd (flushFile flush_example (Some 7))) ! 0 = fresh_desc 0 \<and>
   bufDescTable (snd (flushFile flush_example (Some 7))) ! 2 = fresh_desc 2 \<and>
   hashTable (snd (flushFile flush_example (Some 7))) (7, 1) = None \<and>
   hashTable (snd (flushFile flush_example (Some 7))) (7, 2) = None \<and>
   bufDescTable (snd (flushFile flush_example (Some 7))) ! 1 = bufDescTable flush_example ! 1 \<and>
   bufDescTable (snd (flushFile flush_example (Some 7))) ! 3 = bufDescTable flush_example ! 3"
proof -
  have n: "numBufs flush_example = 4" by (simp add: flush_example_def numBufs_def)
  have lt4: "i < 4 \<longleftrightarrow> i = 0 \<or> i = 1 \<or> i = 2 \<or> i = (3::nat)" for i by arith
  have upt4: "[0..<4] = [0, 1, 2, 3::nat]" by (simp add: upt_rec)
  have h1: "\<forall>i<numBufs flush_example. fileP (bufDescTable flush_example ! i) = Some 7 \<and>
             valid (bufDescTable flush_example ! i) \<and> pinCnt (bufDescTable flush_example ! i) = 0 \<longrightarrow>
             hashTable flush_example (7, pageNo (bufDescTable flush_example ! i)) \<noteq> None"
    unfolding n lt4 by (auto simp: flush_example_def)
  have h2: "\<forall>i<numBufs flush_example. \<forall>j<numBufs flush_example. i \<noteq> j \<and>
             fileP (bufDescTable flush_example ! i) = Some 7 \<and> valid (bufDescTable flush_example ! i) \<and>
             pinCnt (bufDescTable flush_example ! i) = 0 \<and>
             fileP (bufDescTable flush_example ! j) = Some 7 \<and> valid (bufDescTable flush_example ! j) \<and>
             pinCnt (bufDescTable flush_example ! j) = 0 \<longrightarrow>
             pageNo (bufDescTable flush_example ! i) \<noteq> pageNo (bufDescTable flush_example ! j)"
    unfolding n lt4 by (auto simp: flush_example_def)
  have pre: "flush_prefix 7 flush_example = [0, 1, 2]"
    unfolding flush_prefix_def n upt4 by (simp add: flush_example_def flush_blocked_def)
  have fnd: "find (\<lambda>i. flush_blocked 7 (bufDescTable flush_example ! i)) [0..<numBufs flush_example] = Some 3"
    unfolding n upt4 by (simp add: flush_example_def flush_blocked_def)
  from flushFile_each_frame [OF h1 h2] show ?thesis
    unfolding pre fnd
    by (simp add: flush_example_def flush_error_def Clear_desc_def fresh_desc_def)
qed

subsection \<open>The dirty flag\<close>



























end
